theory Spec2Isabelle
  imports Complex_Main "HOL-Library.Word"
begin

section \<open>Single-precision values\<close>

text \<open>
  The C type \<^verbatim>\<open>float\<close> is embedded by value: a finite number, one of the two
  infinities, or a NaN.  The two signed zeros compare equal in C and are identified here
  (\<open>Fin 0\<close>).  Comparisons follow IEEE 754: every ordered comparison with a NaN operand is
  false.
\<close>

datatype cfloat = Fin real | PInf | NInf | NaN

text \<open>The C operator \<^verbatim>\<open><\<close> on two floats.\<close>

fun flt :: "cfloat \<Rightarrow> cfloat \<Rightarrow> bool" where
  "flt (Fin a) (Fin b) = (a < b)"
| "flt (Fin a) PInf = True"
| "flt NInf (Fin b) = True"
| "flt NInf PInf = True"
| "flt _ _ = False"

text \<open>The C operators \<^verbatim>\<open>></\<close> and \<^verbatim>\<open><=\<close>.\<close>

definition fgt :: "cfloat \<Rightarrow> cfloat \<Rightarrow> bool" where
  "fgt a b = flt b a"

definition fle :: "cfloat \<Rightarrow> cfloat \<Rightarrow> bool" where
  "fle a b = (a \<noteq> NaN \<and> b \<noteq> NaN \<and> \<not> flt b a)"

text \<open>
  Everything the source leaves to the C implementation is collected in one record that
  every operation takes as its first argument:
  \<^item> \<open>round_f32\<close>: the rounding of an exact real result to a representable number;
  \<^item> \<open>cvt_u16\<close>: what the conversion \<^verbatim>\<open>(uint16_t)x\<close> produces where ISO C leaves it
    undefined (\<open>x\<close> a NaN, an infinity, or with an integral part outside \<open>0..65535\<close>);
  \<^item> \<open>atof_f32\<close>: the library call \<^verbatim>\<open>(float)atof(s)\<close>;
  \<^item> \<open>printf_1f\<close>: the text that the conversion \<^verbatim>\<open>%.1f\<close> prints for a value.
  The theorems below hold for every such record.
\<close>

record platform =
  round_f32 :: "real \<Rightarrow> real"
  cvt_u16 :: "cfloat \<Rightarrow> 16 word"
  atof_f32 :: "string \<Rightarrow> cfloat"
  printf_1f :: "cfloat \<Rightarrow> string"

definition FLT_MAX :: real where
  "FLT_MAX = 340282346638528859811704183484516925440"

text \<open>An exact result is rounded; beyond the largest finite number it becomes an infinity.\<close>

definition to_float :: "platform \<Rightarrow> real \<Rightarrow> cfloat" where
  "to_float P x =
     (let y = round_f32 P x
      in if FLT_MAX < y then PInf else if y < - FLT_MAX then NInf else Fin y)"

fun fneg :: "cfloat \<Rightarrow> cfloat" where
  "fneg (Fin a) = Fin (- a)"
| "fneg PInf = NInf"
| "fneg NInf = PInf"
| "fneg NaN = NaN"

fun fadd :: "platform \<Rightarrow> cfloat \<Rightarrow> cfloat \<Rightarrow> cfloat" where
  "fadd P (Fin a) (Fin b) = to_float P (a + b)"
| "fadd P NaN _ = NaN"
| "fadd P _ NaN = NaN"
| "fadd P PInf NInf = NaN"
| "fadd P NInf PInf = NaN"
| "fadd P PInf _ = PInf"
| "fadd P _ PInf = PInf"
| "fadd P NInf _ = NInf"
| "fadd P _ NInf = NInf"

definition fsub :: "platform \<Rightarrow> cfloat \<Rightarrow> cfloat \<Rightarrow> cfloat" where
  "fsub P a b = fadd P a (fneg b)"

text \<open>The sign of a value that is not a NaN: \<open>-1\<close>, \<open>0\<close> or \<open>1\<close>.\<close>

fun fsign :: "cfloat \<Rightarrow> int" where
  "fsign (Fin a) = (if a < 0 then - 1 else if a = 0 then 0 else 1)"
| "fsign PInf = 1"
| "fsign NInf = - 1"
| "fsign NaN = 0"

fun fmul :: "platform \<Rightarrow> cfloat \<Rightarrow> cfloat \<Rightarrow> cfloat" where
  "fmul P (Fin a) (Fin b) = to_float P (a * b)"
| "fmul P NaN _ = NaN"
| "fmul P _ NaN = NaN"
| "fmul P a b =
     (let s = fsign a * fsign b
      in if s = 0 then NaN else if 0 < s then PInf else NInf)"

text \<open>A \<^verbatim>\<open>uint16_t\<close> converted to \<^verbatim>\<open>float\<close>: exact, since it is below \<open>2 ^ 24\<close>.\<close>

definition u16_to_float :: "16 word \<Rightarrow> cfloat" where
  "u16_to_float w = Fin (real (unat w))"

text \<open>
  The cast \<^verbatim>\<open>(uint16_t)x\<close>: the fractional part is discarded when the integral part
  is representable; otherwise the result is the platform's.
\<close>

definition trunc_real :: "real \<Rightarrow> int" where
  "trunc_real v = (if 0 \<le> v then \<lfloor>v\<rfloor> else \<lceil>v\<rceil>)"

definition float_to_u16 :: "platform \<Rightarrow> cfloat \<Rightarrow> 16 word" where
  "float_to_u16 P x =
     (case x of
        Fin v \<Rightarrow> if - 1 < v \<and> v < 65536 then word_of_int (trunc_real v) else cvt_u16 P x
      | _ \<Rightarrow> cvt_u16 P x)"

text \<open>The float literals of \<^verbatim>\<open>vehicle.c\<close> that are not integers, as the exact
  single-precision numbers they denote.\<close>

definition lit_0_98f :: cfloat where "lit_0_98f = Fin (2055209 / 2097152)"
definition lit_0_3f :: cfloat where "lit_0_3f = Fin (5033165 / 16777216)"
definition lit_0_05f :: cfloat where "lit_0_05f = Fin (13421773 / 268435456)"
definition lit_0_01f :: cfloat where "lit_0_01f = Fin (5368709 / 536870912)"

section \<open>The physical model (\<^verbatim>\<open>vehicle.c\<close>)\<close>

record VehicleState_t =
  speed_kph :: cfloat
  engine_rpm :: "16 word"
  coolant_temp_c :: cfloat

text \<open>
  A pointer is \<open>NULL\<close> or the address of an object.  The vehicle states live in a store
  from addresses to structs; an operation on a pointer takes the store and returns it
  updated.
\<close>

datatype ptr = NULL | Ptr nat

type_synonym vehicle_store = "nat \<Rightarrow> VehicleState_t"

definition clamp_f :: "cfloat \<Rightarrow> cfloat \<Rightarrow> cfloat \<Rightarrow> cfloat" where
  "clamp_f v mn mx = (if flt v mn then mn else if fgt v mx then mx else v)"

definition Vehicle_Init :: "ptr \<Rightarrow> vehicle_store \<Rightarrow> vehicle_store" where
  "Vehicle_Init vs h =
     (case vs of
        NULL \<Rightarrow> h
      | Ptr a \<Rightarrow> h(a := \<lparr>speed_kph = Fin 0, engine_rpm = 800, coolant_temp_c = Fin 30\<rparr>))"

text \<open>The assignments of \<^verbatim>\<open>Vehicle_Update\<close> after its guard, on the struct pointed to.\<close>

definition Vehicle_Update_body :: "platform \<Rightarrow> VehicleState_t \<Rightarrow> VehicleState_t" where
  "Vehicle_Update_body P s =
     (let speed1 = fmul P (speed_kph s) lit_0_98f;
          speed2 = clamp_f speed1 (Fin 0) (Fin 200);
          target_rpm = fadd P (Fin 800) (fmul P speed2 (Fin 50));
          rpm1 = engine_rpm s
                 + float_to_u16 P (fmul P (fsub P target_rpm (u16_to_float (engine_rpm s))) lit_0_3f);
          rpm2 = float_to_u16 P (clamp_f (u16_to_float rpm1) (Fin 600) (Fin 6000));
          warmup_target = Fin 90;
          temp1 = (if 1000 < rpm2
                   then fadd P (coolant_temp_c s)
                          (fmul P (fsub P warmup_target (coolant_temp_c s)) lit_0_05f)
                   else fsub P (coolant_temp_c s) lit_0_01f);
          temp2 = clamp_f temp1 (Fin 20) (Fin 110)
      in \<lparr>speed_kph = speed2, engine_rpm = rpm2, coolant_temp_c = temp2\<rparr>)"

definition Vehicle_Update :: "platform \<Rightarrow> ptr \<Rightarrow> cfloat \<Rightarrow> vehicle_store \<Rightarrow> vehicle_store" where
  "Vehicle_Update P vs dt_s h =
     (case vs of
        NULL \<Rightarrow> h
      | Ptr a \<Rightarrow> if fle dt_s (Fin 0) then h else h(a := Vehicle_Update_body P (h a)))"

definition Vehicle_SetTargetSpeed :: "ptr \<Rightarrow> cfloat \<Rightarrow> vehicle_store \<Rightarrow> vehicle_store" where
  "Vehicle_SetTargetSpeed vs speed h =
     (case vs of
        NULL \<Rightarrow> h
      | Ptr a \<Rightarrow> h(a := (h a)\<lparr>speed_kph := clamp_f speed (Fin 0) (Fin 200)\<rparr>))"

definition Vehicle_Force ::
  "platform \<Rightarrow> ptr \<Rightarrow> cfloat \<Rightarrow> 16 word \<Rightarrow> cfloat \<Rightarrow> vehicle_store \<Rightarrow> vehicle_store" where
  "Vehicle_Force P vs speed rpm temp_c h =
     (case vs of
        NULL \<Rightarrow> h
      | Ptr a \<Rightarrow>
          h(a := \<lparr>speed_kph = clamp_f speed (Fin 0) (Fin 200),
                  engine_rpm = float_to_u16 P (clamp_f (u16_to_float rpm) (Fin 600) (Fin 6000)),
                  coolant_temp_c = clamp_f temp_c (Fin 20) (Fin 110)\<rparr>))"

text \<open>The field invariants of the data model.\<close>

definition vehicle_inv :: "VehicleState_t \<Rightarrow> bool" where
  "vehicle_inv s =
     (fle (Fin 0) (speed_kph s) \<and> fle (speed_kph s) (Fin 200)
      \<and> 600 \<le> engine_rpm s \<and> engine_rpm s \<le> 6000
      \<and> fle (Fin 20) (coolant_temp_c s) \<and> fle (coolant_temp_c s) (Fin 110))"

text \<open>A finite sequence of update calls on the same object, one time step per call.\<close>

fun Vehicle_Update_seq :: "platform \<Rightarrow> ptr \<Rightarrow> cfloat list \<Rightarrow> vehicle_store \<Rightarrow> vehicle_store" where
  "Vehicle_Update_seq P vs [] h = h"
| "Vehicle_Update_seq P vs (dt # dts) h = Vehicle_Update_seq P vs dts (Vehicle_Update P vs dt h)"

text \<open>Concrete values used to run the model.\<close>

definition exact_platform :: platform where
  "exact_platform =
     \<lparr>round_f32 = (\<lambda>x. x), cvt_u16 = (\<lambda>x. 0), atof_f32 = (\<lambda>s. Fin 0), printf_1f = (\<lambda>v. [])\<rparr>"

definition idle_state :: VehicleState_t where
  "idle_state = \<lparr>speed_kph = Fin 0, engine_rpm = 800, coolant_temp_c = Fin 30\<rparr>"

definition idle_store :: vehicle_store where
  "idle_store a = idle_state"

section \<open>The logging sink (\<^verbatim>\<open>log.c\<close>) and the terminal interface (\<^verbatim>\<open>cli_if.c\<close>)\<close>

abbreviation NUL :: char where "NUL \<equiv> CHR 0x00"
abbreviation CR :: char where "CR \<equiv> CHR 0x0D"
abbreviation LF :: char where "LF \<equiv> CHR 0x0A"
abbreviation QUOTE :: char where "QUOTE \<equiv> CHR 0x27"

text \<open>The C string held in a character array: the characters before the first NUL.\<close>

definition cstr :: "string \<Rightarrow> string" where
  "cstr buf = takeWhile (\<lambda>c. c \<noteq> NUL) buf"

datatype log_level_t = LOG_LEVEL_ERROR | LOG_LEVEL_WARN | LOG_LEVEL_INFO | LOG_LEVEL_DEBUG

text \<open>The numeric value of each enumerator.\<close>

fun level_num :: "log_level_t \<Rightarrow> nat" where
  "level_num LOG_LEVEL_ERROR = 0"
| "level_num LOG_LEVEL_WARN = 1"
| "level_num LOG_LEVEL_INFO = 2"
| "level_num LOG_LEVEL_DEBUG = 3"

text \<open>
  The file-scope and function-scope static variables of \<^verbatim>\<open>log.c\<close> and
  \<^verbatim>\<open>cli_if.c\<close>, the store of vehicle structs, and the bytes handed to the UART driver
  so far: one entry per transmit call, with the UART it was made on.  The arrays
  \<open>s_cliBuf\<close> (64 bytes) and \<open>line\<close> (32 characters) are lists; the code never indexes
  them out of range as long as \<open>s_cliHead\<close> and \<open>s_cliTail\<close> stay below 64.
  A UART handle is a pointer: \<open>NULL\<close> or \<open>Ptr u\<close>.
\<close>

record ecu =
  s_logUart :: ptr
  s_logLevel :: log_level_t
  s_cliUart :: ptr
  s_vehicle :: ptr
  s_cliBuf :: string
  s_cliHead :: "8 word"
  s_cliTail :: "8 word"
  line :: string
  idx :: "8 word"
  can_rx_logging :: bool
  vehicles :: vehicle_store
  uart_tx :: "(nat \<times> string) list"

text \<open>
  Modelled from the spec: the byte-oriented transmit primitive of the UART driver
  (\<^verbatim>\<open>HAL_UART_Transmit\<close>, not among the sources) sends the first \<open>Size\<close> bytes of the
  buffer; the model records them.
\<close>

definition HAL_UART_Transmit :: "nat \<Rightarrow> string \<Rightarrow> nat \<Rightarrow> ecu \<Rightarrow> ecu" where
  "HAL_UART_Transmit huart pData Size st = st\<lparr>uart_tx := uart_tx st @ [(huart, take Size pData)]\<rparr>"

text \<open>
  Modelled from the spec: \<^verbatim>\<open>CAN_IF_SetLogging\<close> (declared in \<^verbatim>\<open>can_if.h\<close>, defined in a
  file that is not among the sources) sets the logging flag of the bus receive pipeline:
  non-zero enables, zero disables.
\<close>

definition CAN_IF_SetLogging :: "8 word \<Rightarrow> ecu \<Rightarrow> ecu" where
  "CAN_IF_SetLogging enable st = st\<lparr>can_rx_logging := (enable \<noteq> 0)\<rparr>"

definition Log_Init :: "ptr \<Rightarrow> ecu \<Rightarrow> ecu" where
  "Log_Init huart st = st\<lparr>s_logUart := huart\<rparr>"

definition Log_SetLevel :: "log_level_t \<Rightarrow> ecu \<Rightarrow> ecu" where
  "Log_SetLevel level st = st\<lparr>s_logLevel := level\<rparr>"

definition Log_GetLevel :: "ecu \<Rightarrow> log_level_t" where
  "Log_GetLevel st = s_logLevel st"

text \<open>The line that \<^verbatim>\<open>snprintf\<close> formats from \<^verbatim>\<open>"[%c][%s] %s\r\n"\<close>, before any truncation.\<close>

definition log_line :: "log_level_t \<Rightarrow> string option \<Rightarrow> string \<Rightarrow> string" where
  "log_line level tag msgBuf =
     (let levelChar = (case level of
                         LOG_LEVEL_ERROR \<Rightarrow> CHR ''E''
                       | LOG_LEVEL_WARN \<Rightarrow> CHR ''W''
                       | LOG_LEVEL_INFO \<Rightarrow> CHR ''I''
                       | LOG_LEVEL_DEBUG \<Rightarrow> CHR ''D'');
          tag1 = (case tag of None \<Rightarrow> ''GEN'' | Some m \<Rightarrow> m)
      in ''['' @ [levelChar] @ '']['' @ cstr tag1 @ ''] '' @ cstr msgBuf @ [CR, LF])"

text \<open>
  \<^verbatim>\<open>Log_Write\<close>.  The variadic arguments are represented by \<open>formatted\<close>: the text that
  \<^verbatim>\<open>vsnprintf\<close> produces from the format and its arguments before truncation, or \<open>None\<close>
  when it reports an error (a negative result).  \<open>tag\<close> is the argument \<^verbatim>\<open>module\<close>,
  \<open>None\<close> when it is NULL.
  \<open>msgBuf\<close> keeps 127 characters, \<open>outBuf\<close> 159 characters and a terminating NUL, and up
  to 160 bytes of \<open>outBuf\<close> are transmitted.
\<close>

definition Log_Write :: "log_level_t \<Rightarrow> string option \<Rightarrow> string option \<Rightarrow> ecu \<Rightarrow> ecu" where
  "Log_Write level tag formatted st =
     (if level_num (s_logLevel st) < level_num level then st
      else case s_logUart st of
        NULL \<Rightarrow> st
      | Ptr u \<Rightarrow>
          (case formatted of
             None \<Rightarrow> st
           | Some msg \<Rightarrow>
               (let msgBuf = take 127 msg;
                    out = log_line level tag msgBuf;
                    n = length out;
                    outBuf = take 159 out @ [NUL];
                    len = (if 160 < n then 160 else n)
                in if n \<le> 0 then st else HAL_UART_Transmit u outBuf len st)))"

definition cli_uart_print :: "string option \<Rightarrow> ecu \<Rightarrow> ecu" where
  "cli_uart_print s st =
     (case s of
        None \<Rightarrow> st
      | Some str \<Rightarrow>
          (case s_cliUart st of
             NULL \<Rightarrow> st
           | Ptr u \<Rightarrow>
               (let len = length (cstr str)
                in if len = 0 then st else HAL_UART_Transmit u str (len mod 65536) st)))"

definition CLI_RX_BUF_SIZE :: "32 word" where
  "CLI_RX_BUF_SIZE = 64"

text \<open>The index after \<open>i\<close>: \<^verbatim>\<open>(uint8_t)((i + 1U) % CLI_RX_BUF_SIZE)\<close>, computed in 32 bits.\<close>

definition ring_next :: "8 word \<Rightarrow> 8 word" where
  "ring_next i = ucast (((ucast i :: 32 word) + 1) mod CLI_RX_BUF_SIZE)"

definition cli_push :: "char \<Rightarrow> ecu \<Rightarrow> ecu" where
  "cli_push c st =
     (let next = ring_next (s_cliHead st)
      in if next \<noteq> s_cliTail st
         then st\<lparr>s_cliBuf := (s_cliBuf st)[unat (s_cliHead st) := c], s_cliHead := next\<rparr>
         else st)"

text \<open>
  \<^verbatim>\<open>cli_pop\<close> returns its \<^verbatim>\<open>int\<close> result, the byte it stored through the pointer \<open>c\<close>
  (\<open>None\<close> when it stored nothing) and the state.
\<close>

definition cli_pop :: "ecu \<Rightarrow> int \<times> char option \<times> ecu" where
  "cli_pop st =
     (if s_cliHead st = s_cliTail st then (0, None, st)
      else (1, Some (s_cliBuf st ! unat (s_cliTail st)),
            st\<lparr>s_cliTail := ring_next (s_cliTail st)\<rparr>))"

definition help_text :: string where
  "help_text =
     [CR, LF] @ ''Commands:'' @ [CR, LF]
     @ ''  help          - show this help'' @ [CR, LF]
     @ ''  veh speed X   - set target speed to X km/h'' @ [CR, LF]
     @ ''  veh cool-hot  - inject coolant overheat'' @ [CR, LF]
     @ ''  log on        - enable CAN RX logging'' @ [CR, LF]
     @ ''  log off       - disable CAN RX logging'' @ [CR, LF] @ ''> ''"

definition no_vehicle_text :: string where
  "no_vehicle_text = [CR, LF] @ ''No vehicle bound to CLI.'' @ [CR, LF] @ ''> ''"

text \<open>
  \<^verbatim>\<open>cli_handle_char\<close>.  \<^verbatim>\<open>strcmp(line, s) == 0\<close> is \<open>cstr line = s\<close>, and
  \<^verbatim>\<open>strncmp(line, s, 10) == 0\<close> for a ten-character literal \<open>s\<close> is
  \<open>take 10 (cstr line) = s\<close>.
\<close>

definition cli_handle_char :: "platform \<Rightarrow> char \<Rightarrow> ecu \<Rightarrow> ecu" where
  "cli_handle_char P c st =
     (if c = CR \<or> c = LF then
        (if idx st = 0 then cli_uart_print (Some ([CR, LF] @ ''> '')) st
         else
           (let st1 = st\<lparr>line := (line st)[unat (idx st) := NUL], idx := 0\<rparr>;
                cmd = cstr (line st1);
                st2 = Log_Write LOG_LEVEL_DEBUG (Some ''CLI'')
                        (Some (''Command: '' @ [QUOTE] @ cmd @ [QUOTE])) st1
            in if cmd = ''h'' \<or> cmd = ''help'' then cli_uart_print (Some help_text) st2
               else if take 10 cmd = ''veh speed '' then
                 (let v = atof_f32 P (cstr (drop 10 (line st2)))
                  in case s_vehicle st2 of
                       NULL \<Rightarrow> cli_uart_print (Some no_vehicle_text) st2
                     | Ptr a \<Rightarrow>
                         cli_uart_print (Some ([CR, LF] @ ''OK: speed updated'' @ [CR, LF] @ ''> ''))
                           (Log_Write LOG_LEVEL_INFO (Some ''CLI'')
                              (Some (''Set target speed to '' @ printf_1f P v @ '' km/h''))
                              (st2\<lparr>vehicles := Vehicle_SetTargetSpeed (s_vehicle st2) v (vehicles st2)\<rparr>)))
               else if cmd = ''veh cool-hot'' then
                 (case s_vehicle st2 of
                    NULL \<Rightarrow> cli_uart_print (Some no_vehicle_text) st2
                  | Ptr a \<Rightarrow>
                      cli_uart_print (Some ([CR, LF] @ ''Injected: coolant overheat'' @ [CR, LF] @ ''> ''))
                        (Log_Write LOG_LEVEL_WARN (Some ''CLI'') (Some ''Injected coolant overheat'')
                           (st2\<lparr>vehicles :=
                                  Vehicle_Force P (s_vehicle st2)
                                    (speed_kph (vehicles st2 a))
                                    (engine_rpm (vehicles st2 a))
                                    (Fin 115)
                                    (vehicles st2)\<rparr>)))
               else if cmd = ''log on'' then
                 cli_uart_print (Some ([CR, LF] @ ''CAN RX logging: ON'' @ [CR, LF] @ ''> ''))
                   (Log_Write LOG_LEVEL_INFO (Some ''CLI'') (Some ''CAN RX logging enabled'')
                      (CAN_IF_SetLogging 1 st2))
               else if cmd = ''log off'' then
                 cli_uart_print (Some ([CR, LF] @ ''CAN RX logging: OFF'' @ [CR, LF] @ ''> ''))
                   (Log_Write LOG_LEVEL_INFO (Some ''CLI'') (Some ''CAN RX logging disabled'')
                      (CAN_IF_SetLogging 0 st2))
               else
                 cli_uart_print
                   (Some ([CR, LF] @ ''Unknown command. Try '' @ [QUOTE] @ ''help'' @ [QUOTE] @ ''.''
                          @ [CR, LF] @ ''> ''))
                   st2))
      else if unat (idx st) < 32 - 1 then
        (let st1 = st\<lparr>line := (line st)[unat (idx st) := c], idx := idx st + 1\<rparr>
         in case s_cliUart st1 of
              NULL \<Rightarrow> st1
            | Ptr u \<Rightarrow> HAL_UART_Transmit u [c] 1 st1)
      else st)"

text \<open>The bytes of a line handed to the parser one after the other, as \<^verbatim>\<open>CLI_IF_Task\<close>
  does with the bytes it pops.\<close>

fun cli_feed :: "platform \<Rightarrow> string \<Rightarrow> ecu \<Rightarrow> ecu" where
  "cli_feed P [] st = st"
| "cli_feed P (c # cs) st = cli_feed P cs (cli_handle_char P c st)"

text \<open>Pushes (by the receive interrupt) and pops (by the task) in any order.\<close>

datatype ring_op = Push char | Pop

fun ring_step :: "ring_op \<Rightarrow> ecu \<Rightarrow> ecu" where
  "ring_step (Push c) st = cli_push c st"
| "ring_step Pop st = snd (snd (cli_pop st))"

fun ring_run :: "ring_op list \<Rightarrow> ecu \<Rightarrow> ecu" where
  "ring_run [] st = st"
| "ring_run (x # xs) st = ring_run xs (ring_step x st)"

text \<open>The number of bytes pushed and not yet popped: \<open>(head - tail) mod 64\<close>.\<close>

definition cli_pending :: "ecu \<Rightarrow> nat" where
  "cli_pending st = (unat (s_cliHead st) + 64 - unat (s_cliTail st)) mod 64"

definition ring_inv :: "ecu \<Rightarrow> bool" where
  "ring_inv st = (s_cliHead st < 64 \<and> s_cliTail st < 64)"

section \<open>The telemetry payload\<close>

text \<open>Modelled from the spec: a 16-bit field of the payload, low byte first.\<close>

definition le16 :: "16 word \<Rightarrow> 8 word list" where
  "le16 w = [ucast w, ucast (drop_bit 8 w)]"

text \<open>
  Modelled from the spec: the encoder \<^verbatim>\<open>CAN_IF_SendTelemetry\<close> is declared in
  \<^verbatim>\<open>can_if.h\<close> and defined in a file that is not among the sources.  Its payload is six
  bytes, little-endian: speed times ten rounded to an unsigned 16-bit integer, the
  rotational speed, temperature times ten rounded to a signed 16-bit integer.  The spec
  does not say what is sent for a value that is not finite or does not fit its field; the
  model gives no payload there.
\<close>

definition telemetry_payload :: "VehicleState_t \<Rightarrow> 8 word list option" where
  "telemetry_payload vs =
     (case (speed_kph vs, coolant_temp_c vs) of
        (Fin s, Fin t) \<Rightarrow>
          (let speed10 = round (s * 10); temp10 = round (t * 10)
           in if 0 \<le> speed10 \<and> speed10 < 65536 \<and> - 32768 \<le> temp10 \<and> temp10 < 32768
              then Some (le16 (word_of_int speed10) @ le16 (engine_rpm vs) @ le16 (word_of_int temp10))
              else None)
      | _ \<Rightarrow> None)"

section \<open>Concrete states\<close>

text \<open>The state after start-up: both modules on UART 2, the vehicle at address 0.\<close>

definition ecu_boot :: ecu where
  "ecu_boot =
     \<lparr>s_logUart = Ptr 2, s_logLevel = LOG_LEVEL_INFO, s_cliUart = Ptr 2, s_vehicle = Ptr 0,
      s_cliBuf = replicate 64 NUL, s_cliHead = 0, s_cliTail = 0,
      line = replicate 32 NUL, idx = 0, can_rx_logging = True,
      vehicles = idle_store, uart_tx = []\<rparr>"

text \<open>A state whose command-line accumulator holds 31 characters.\<close>

definition ecu_line_full :: ecu where
  "ecu_line_full = ecu_boot\<lparr>line := replicate 31 (CHR ''a'') @ [NUL], idx := 31\<rparr>"

text \<open>A state whose ring buffer holds 63 unread bytes.\<close>

definition ecu_ring_full :: ecu where
  "ecu_ring_full = ecu_boot\<lparr>s_cliBuf := replicate 63 (CHR ''a'') @ [NUL], s_cliHead := 63\<rparr>"

section \<open>Facts about the arithmetic\<close>

lemma to_float_not_NaN: "to_float P x \<noteq> NaN"
  by (simp add: to_float_def Let_def)

lemma clamp_f_bounds:
  assumes "v \<noteq> NaN" "lo \<le> hi"
  shows "fle (Fin lo) (clamp_f v (Fin lo) (Fin hi)) \<and> fle (clamp_f v (Fin lo) (Fin hi)) (Fin hi)"
  using assms by (cases v) (auto simp: clamp_f_def fle_def fgt_def)

lemma clamp_f_id: "fle lo v \<Longrightarrow> fle v hi \<Longrightarrow> clamp_f v lo hi = v"
  by (simp add: clamp_f_def fle_def fgt_def)

lemma fmul_pos_not_NaN: "x \<noteq> NaN \<Longrightarrow> b \<noteq> 0 \<Longrightarrow> fmul P x (Fin b) \<noteq> NaN"
  by (cases x) (auto simp: to_float_not_NaN Let_def)

lemma fadd_Fin_not_NaN: "y \<noteq> NaN \<Longrightarrow> fadd P (Fin a) y \<noteq> NaN"
  by (cases y) (auto simp: to_float_not_NaN)

lemma fsub_Fin_not_NaN: "fsub P (Fin a) (Fin b) \<noteq> NaN"
  by (simp add: fsub_def to_float_not_NaN)

lemma fle_Fin_cases: "fle (Fin lo) x \<Longrightarrow> fle x (Fin hi) \<Longrightarrow> \<exists>v. x = Fin v \<and> lo \<le> v \<and> v \<le> hi"
  by (cases x) (auto simp: fle_def)

lemma trunc_real_of_nat: "trunc_real (real n) = int n"
  by (simp add: trunc_real_def)

lemma float_to_u16_of_nat:
  assumes "n < 65536"
  shows "float_to_u16 P (Fin (real n)) = of_nat n"
proof -
  have "- 1 < real n" "real n < 65536" using assms by simp_all
  then have "float_to_u16 P (Fin (real n)) = word_of_int (trunc_real (real n))"
    unfolding float_to_u16_def by simp
  then show ?thesis by (simp add: trunc_real_of_nat)
qed

lemma rpm_clamp_nat:
  assumes "n < 65536"
  shows "float_to_u16 P (clamp_f (Fin (real n)) (Fin 600) (Fin 6000))
         = of_nat (if n < 600 then 600 else if 6000 < n then 6000 else n)"
proof -
  have "clamp_f (Fin (real n)) (Fin 600) (Fin 6000)
        = Fin (real (if n < 600 then 600 else if 6000 < n then 6000 else n))"
    by (simp add: clamp_f_def fgt_def)
  moreover have "(if n < 600 then 600 else if 6000 < n then 6000 else n) < 65536"
    using assms by simp
  ultimately show ?thesis by (simp only: float_to_u16_of_nat)
qed

text \<open>The clamped rotational speed, whatever the platform: the cast is always in range.\<close>

lemma rpm_clamp_cases:
  fixes w :: "16 word"
  shows "float_to_u16 P (clamp_f (u16_to_float w) (Fin 600) (Fin 6000))
         = (if w < 600 then 600 else if 6000 < w then 6000 else w)"
proof -
  have n: "unat w < 65536" using unsigned_less [of w] by simp
  have "float_to_u16 P (clamp_f (u16_to_float w) (Fin 600) (Fin 6000))
        = of_nat (if unat w < 600 then 600 else if 6000 < unat w then 6000 else unat w)"
    unfolding u16_to_float_def by (rule rpm_clamp_nat [OF n])
  also have "\<dots> = (if w < 600 then 600 else if 6000 < w then 6000 else w)"
    by (simp add: word_less_nat_alt)
  finally show ?thesis .
qed

lemma rpm_clamp_bounds:
  "600 \<le> float_to_u16 P (clamp_f (u16_to_float w) (Fin 600) (Fin 6000))
   \<and> float_to_u16 P (clamp_f (u16_to_float w) (Fin 600) (Fin 6000)) \<le> 6000"
  unfolding rpm_clamp_cases by (auto simp: word_le_nat_alt word_less_nat_alt)

lemma rpm_clamp_id:
  "600 \<le> w \<Longrightarrow> w \<le> 6000 \<Longrightarrow> float_to_u16 P (clamp_f (u16_to_float w) (Fin 600) (Fin 6000)) = w"
  unfolding rpm_clamp_cases by (auto simp: word_le_nat_alt word_less_nat_alt)

section \<open>The physical model\<close>

lemma Vehicle_Update_body_inv:
  assumes "vehicle_inv s"
  shows "vehicle_inv (Vehicle_Update_body P s)"
proof -
  obtain v where v: "speed_kph s = Fin v"
    using assms fle_Fin_cases unfolding vehicle_inv_def by blast
  obtain t where t: "coolant_temp_c s = Fin t"
    using assms fle_Fin_cases unfolding vehicle_inv_def by blast
  have sp: "fmul P (speed_kph s) lit_0_98f \<noteq> NaN"
    by (simp add: v lit_0_98f_def to_float_not_NaN)
  have warm: "fadd P (coolant_temp_c s) (fmul P (fsub P (Fin 90) (coolant_temp_c s)) lit_0_05f) \<noteq> NaN"
    unfolding t lit_0_05f_def
    by (intro fadd_Fin_not_NaN fmul_pos_not_NaN fsub_Fin_not_NaN) simp
  have cool: "fsub P (coolant_temp_c s) lit_0_01f \<noteq> NaN"
    by (simp add: t lit_0_01f_def fsub_Fin_not_NaN)
  have tmp: "(if c then fadd P (coolant_temp_c s) (fmul P (fsub P (Fin 90) (coolant_temp_c s)) lit_0_05f)
              else fsub P (coolant_temp_c s) lit_0_01f) \<noteq> NaN" for c
    using warm cool by simp
  show ?thesis
    unfolding vehicle_inv_def Vehicle_Update_body_def Let_def
    using clamp_f_bounds [OF sp, of 0 200] clamp_f_bounds [OF tmp, of 20 110] rpm_clamp_bounds
    by simp
qed

lemma Vehicle_Update_inv:
  "vehicle_inv (h a) \<Longrightarrow> vehicle_inv (Vehicle_Update P (Ptr a) dt h a)"
  by (simp add: Vehicle_Update_def Vehicle_Update_body_inv)

lemma idle_store_inv: "vehicle_inv (idle_store a)"
  by (simp add: vehicle_inv_def idle_store_def idle_state_def fle_def)

text \<open>
  Claim C1.  From a state within the three ranges (speed in \<open>[0, 200]\<close>, rotational speed
  in \<open>[600, 6000]\<close>, temperature in \<open>[20, 110]\<close>), any finite sequence of calls of
  \<^verbatim>\<open>Vehicle_Update\<close> with positive time steps leaves the state within the three ranges.
  This holds for every rounding of the float operations and for every result of the
  conversion of an out-of-range difference to \<^verbatim>\<open>uint16_t\<close>, since each field is clamped
  after it is computed.
\<close>

theorem Vehicle_Update_seq_preserves_bounds:
  assumes "vehicle_inv (h a)" and "\<forall>dt \<in> set dts. fgt dt (Fin 0)"
  shows "vehicle_inv (Vehicle_Update_seq P (Ptr a) dts h a)"
  using assms
proof (induction dts arbitrary: h)
  case Nil
  then show ?case by simp
next
  case (Cons dt dts)
  then show ?case by (simp add: Vehicle_Update_inv)
qed

theorem Vehicle_Update_seq_preserves_bounds_witness:
  "vehicle_inv (idle_store 0) \<and> fgt (Fin (1 / 10)) (Fin 0) \<and> fgt (Fin 1) (Fin 0) \<and>
   vehicle_inv (Vehicle_Update_seq exact_platform (Ptr 0) [Fin (1 / 10), Fin 1] idle_store 0)"
proof -
  have a: "vehicle_inv (idle_store 0)"
    by (rule idle_store_inv)
  have b: "\<forall>dt \<in> set [Fin (1 / 10), Fin 1]. fgt dt (Fin 0)"
    by (simp add: fgt_def)
  show ?thesis
    using a b
      Vehicle_Update_seq_preserves_bounds
        [where h = idle_store and a = 0 and dts = "[Fin (1 / 10), Fin 1]" and P = exact_platform]
    by simp
qed

text \<open>
  \<^verbatim>\<open>Vehicle_SetTargetSpeed\<close> on a value that is not a NaN: the speed lands in
  \<open>[0, 200]\<close> (the infinities included) and the other two fields keep their values.
\<close>

lemma Vehicle_SetTargetSpeed_ordered:
  "v \<noteq> NaN \<Longrightarrow>
   fle (Fin 0) (speed_kph (Vehicle_SetTargetSpeed (Ptr a) v h a))
   \<and> fle (speed_kph (Vehicle_SetTargetSpeed (Ptr a) v h a)) (Fin 200)
   \<and> engine_rpm (Vehicle_SetTargetSpeed (Ptr a) v h a) = engine_rpm (h a)
   \<and> coolant_temp_c (Vehicle_SetTargetSpeed (Ptr a) v h a) = coolant_temp_c (h a)"
  using clamp_f_bounds [of v 0 200] by (simp add: Vehicle_SetTargetSpeed_def)

text \<open>
  Claim C4 says that \<^verbatim>\<open>Vehicle_SetTargetSpeed\<close> assigns a speed in \<open>[0, 200]\<close> for every
  input, NaN included.  Both comparisons of \<^verbatim>\<open>clamp_f\<close> are false on a NaN, so the NaN
  is returned and stored: on the idle state the call with a NaN leaves a speed that is a
  NaN and is not at least 0.
\<close>

theorem Vehicle_SetTargetSpeed_NaN:
  "speed_kph (Vehicle_SetTargetSpeed (Ptr 0) NaN idle_store 0) = NaN
   \<and> \<not> fle (Fin 0) (speed_kph (Vehicle_SetTargetSpeed (Ptr 0) NaN idle_store 0))"
  by (simp add: Vehicle_SetTargetSpeed_def clamp_f_def fgt_def fle_def)

text \<open>
  Claim C8.  Calling \<^verbatim>\<open>Vehicle_Force\<close> twice in a row on a non-NULL state with the same
  arguments gives the same state as calling it once.
\<close>

theorem Vehicle_Force_idempotent:
  "Vehicle_Force P (Ptr a) s r t (Vehicle_Force P (Ptr a) s r t h) = Vehicle_Force P (Ptr a) s r t h"
  by (simp add: Vehicle_Force_def)

text \<open>
  Claim C9.  With a NULL state pointer each of \<^verbatim>\<open>Vehicle_Init\<close>, \<^verbatim>\<open>Vehicle_Update\<close>,
  \<^verbatim>\<open>Vehicle_SetTargetSpeed\<close> and \<^verbatim>\<open>Vehicle_Force\<close> returns with the store of vehicle
  states unchanged, for all other arguments.
\<close>

theorem Vehicle_ops_NULL:
  "Vehicle_Init NULL h = h \<and> Vehicle_Update P NULL dt h = h \<and>
   Vehicle_SetTargetSpeed NULL v h = h \<and> Vehicle_Force P NULL s r t h = h"
  by (simp add: Vehicle_Init_def Vehicle_Update_def Vehicle_SetTargetSpeed_def Vehicle_Force_def)

section \<open>The receive ring buffer\<close>

lemma succ_mod64: "h < 64 \<Longrightarrow> (h + 1) mod 64 = (if h = 63 then 0 else h + (1::nat))"
  by simp

lemma pending_mod64:
  assumes "h < 64" "t < 64"
  shows "(h + 64 - t) mod 64 = (if t \<le> h then h - t else h + 64 - (t::nat))"
proof (cases "t \<le> h")
  case True
  then have "h + 64 - t = (h - t) + 64" by simp
  then have "(h + 64 - t) mod 64 = (h - t) mod 64" by (simp only: mod_add_self2)
  then show ?thesis using True assms by simp
next
  case False
  then show ?thesis using assms by simp
qed

lemma mod64_succ_neq: "(n + 1) mod 64 \<noteq> (n::nat)"
proof
  assume h: "(n + 1) mod 64 = n"
  have "(n + 1) mod 64 < 64" by simp
  then have "n < 64" by (simp only: h)
  then have "(n + 1) mod 64 = (if n = 63 then 0 else n + 1)" by (rule succ_mod64)
  with h show False by (simp split: if_splits)
qed

lemma mod64_full: "h < 64 \<Longrightarrow> t < 64 \<Longrightarrow> ((h + 1) mod 64 = t) = ((h + 64 - t) mod 64 = (63::nat))"
  by (simp only: succ_mod64 pending_mod64) (auto split: if_splits)

lemma mod64_empty: "h < 64 \<Longrightarrow> t < 64 \<Longrightarrow> (h = t) = ((h + 64 - t) mod 64 = (0::nat))"
  by (simp only: pending_mod64) (auto split: if_splits)

lemma mod64_push:
  assumes "h < 64" "t < 64" "(h + 64 - t) mod 64 < 63"
  shows "((h + 1) mod 64 + 64 - t) mod 64 = (h + 64 - t) mod 64 + (1::nat)"
proof -
  define k where "k = (h + 1) mod 64"
  have k: "k < 64" by (simp add: k_def)
  have k_eq: "k = (if h = 63 then 0 else h + 1)"
    unfolding k_def by (rule succ_mod64 [OF assms(1)])
  have L: "(k + 64 - t) mod 64 = (if t \<le> k then k - t else k + 64 - t)"
    by (rule pending_mod64 [OF k assms(2)])
  have R: "(h + 64 - t) mod 64 = (if t \<le> h then h - t else h + 64 - t)"
    by (rule pending_mod64 [OF assms(1) assms(2)])
  have p: "(if t \<le> h then h - t else h + 64 - t) < 63"
    using assms(3) unfolding R by assumption
  have "(if t \<le> k then k - t else k + 64 - t) = (if t \<le> h then h - t else h + 64 - t) + 1"
    using assms(1,2) p unfolding k_eq by (auto split: if_splits)
  then have "(k + 64 - t) mod 64 = (h + 64 - t) mod 64 + 1"
    by (simp only: L R)
  then show ?thesis by (simp only: k_def)
qed

lemma mod64_pop:
  assumes "h < 64" "t < 64" "(h + 64 - t) mod 64 \<noteq> 0"
  shows "(h + 64 - (t + 1) mod 64) mod 64 = (h + 64 - t) mod 64 - (1::nat)"
proof -
  define k where "k = (t + 1) mod 64"
  have k: "k < 64" by (simp add: k_def)
  have k_eq: "k = (if t = 63 then 0 else t + 1)"
    unfolding k_def by (rule succ_mod64 [OF assms(2)])
  have L: "(h + 64 - k) mod 64 = (if k \<le> h then h - k else h + 64 - k)"
    by (rule pending_mod64 [OF assms(1) k])
  have R: "(h + 64 - t) mod 64 = (if t \<le> h then h - t else h + 64 - t)"
    by (rule pending_mod64 [OF assms(1) assms(2)])
  have p: "(if t \<le> h then h - t else h + 64 - t) \<noteq> 0"
    using assms(3) unfolding R by assumption
  have "(if k \<le> h then h - k else h + 64 - k) = (if t \<le> h then h - t else h + 64 - t) - 1"
    using assms(1,2) p unfolding k_eq by (auto split: if_splits)
  then have "(h + 64 - k) mod 64 = (h + 64 - t) mod 64 - 1"
    by (simp only: L R)
  then show ?thesis by (simp only: k_def)
qed

lemma unat_ring_next: "unat (ring_next i) = (unat i + 1) mod 64"
proof -
  have i: "unat i < 256" using unsigned_less [of i] by simp
  have u: "unat (ucast i :: 32 word) = unat i"
    using i by (simp add: unsigned_ucast_eq take_bit_eq_mod)
  have "unat (ucast i :: 32 word) + unat (1 :: 32 word) < 2 ^ LENGTH(32)"
    using i by (simp add: u)
  then have a: "unat ((ucast i :: 32 word) + 1) = unat i + 1"
    by (simp only: unat_add_lem [THEN iffD1] u unat_1)
  have b: "unat (((ucast i :: 32 word) + 1) mod 64) = (unat i + 1) mod 64"
    by (simp only: unat_mod a) simp
  have "unat (ring_next i) = ((unat i + 1) mod 64) mod 256"
    unfolding ring_next_def CLI_RX_BUF_SIZE_def
    by (simp only: unsigned_ucast_eq [where 'c = 8] b take_bit_eq_mod) simp
  then show ?thesis by simp
qed

lemma ring_next_neq: "ring_next i \<noteq> i"
proof
  assume "ring_next i = i"
  then have "unat (ring_next i) = unat i" by simp
  then have "(unat i + 1) mod 64 = unat i" by (simp only: unat_ring_next)
  then show False using mod64_succ_neq [of "unat i"] by simp
qed

lemma ring_next_less: "ring_next i < 64"
  by (simp add: word_less_nat_alt unat_ring_next)

lemma ring_full_iff:
  assumes "ring_inv st"
  shows "ring_next (s_cliHead st) = s_cliTail st \<longleftrightarrow> cli_pending st = 63"
proof -
  have h: "unat (s_cliHead st) < 64" and t: "unat (s_cliTail st) < 64"
    using assms by (simp_all add: ring_inv_def word_less_nat_alt)
  have "ring_next (s_cliHead st) = s_cliTail st \<longleftrightarrow> unat (ring_next (s_cliHead st)) = unat (s_cliTail st)"
    by (simp only: word_unat_eq_iff)
  also have "\<dots> \<longleftrightarrow> (unat (s_cliHead st) + 1) mod 64 = unat (s_cliTail st)"
    by (simp only: unat_ring_next)
  also have "\<dots> \<longleftrightarrow> cli_pending st = 63"
    unfolding cli_pending_def by (rule mod64_full [OF h t])
  finally show ?thesis .
qed

lemma ring_empty_iff:
  assumes "ring_inv st"
  shows "s_cliHead st = s_cliTail st \<longleftrightarrow> cli_pending st = 0"
proof -
  have h: "unat (s_cliHead st) < 64" and t: "unat (s_cliTail st) < 64"
    using assms by (simp_all add: ring_inv_def word_less_nat_alt)
  have "s_cliHead st = s_cliTail st \<longleftrightarrow> unat (s_cliHead st) = unat (s_cliTail st)"
    by (simp only: word_unat_eq_iff)
  also have "\<dots> \<longleftrightarrow> cli_pending st = 0"
    unfolding cli_pending_def by (rule mod64_empty [OF h t])
  finally show ?thesis .
qed

lemma cli_pending_le: "cli_pending st \<le> 63"
  unfolding cli_pending_def by simp

lemma cli_pending_push:
  assumes "ring_inv st"
  shows "cli_pending (cli_push c st) = (if cli_pending st < 63 then cli_pending st + 1 else cli_pending st)"
proof (cases "ring_next (s_cliHead st) = s_cliTail st")
  case True
  then show ?thesis using ring_full_iff [OF assms] by (simp add: cli_push_def)
next
  case False
  have h: "unat (s_cliHead st) < 64" and t: "unat (s_cliTail st) < 64"
    using assms by (simp_all add: ring_inv_def word_less_nat_alt)
  from False have ne: "cli_pending st \<noteq> 63" using ring_full_iff [OF assms] by simp
  then have lt: "cli_pending st < 63" using cli_pending_le [of st] by simp
  have "cli_pending (cli_push c st) = ((unat (s_cliHead st) + 1) mod 64 + 64 - unat (s_cliTail st)) mod 64"
    using False by (simp add: cli_push_def cli_pending_def unat_ring_next)
  also have "\<dots> = cli_pending st + 1"
    using lt unfolding cli_pending_def by (rule mod64_push [OF h t])
  finally show ?thesis using lt by simp
qed

lemma cli_pending_pop:
  assumes "ring_inv st"
  shows "cli_pending (snd (snd (cli_pop st))) = cli_pending st - 1"
proof (cases "s_cliHead st = s_cliTail st")
  case True
  then show ?thesis using ring_empty_iff [OF assms] by (simp add: cli_pop_def)
next
  case False
  have h: "unat (s_cliHead st) < 64" and t: "unat (s_cliTail st) < 64"
    using assms by (simp_all add: ring_inv_def word_less_nat_alt)
  from False have ne: "cli_pending st \<noteq> 0" using ring_empty_iff [OF assms] by simp
  have "cli_pending (snd (snd (cli_pop st))) = (unat (s_cliHead st) + 64 - (unat (s_cliTail st) + 1) mod 64) mod 64"
    using False by (simp add: cli_pop_def cli_pending_def unat_ring_next)
  also have "\<dots> = cli_pending st - 1"
    using ne unfolding cli_pending_def by (rule mod64_pop [OF h t])
  finally show ?thesis .
qed

lemma ring_inv_step: "ring_inv st \<Longrightarrow> ring_inv (ring_step x st)"
  by (cases x) (auto simp: ring_inv_def cli_push_def cli_pop_def Let_def ring_next_less)

lemma ring_inv_run: "ring_inv st \<Longrightarrow> ring_inv (ring_run xs st)"
  by (induction xs arbitrary: st) (simp_all add: ring_inv_step)

text \<open>
  Claim C10.  While both indices are below 64 (they are 0 after \<^verbatim>\<open>CLI_IF_Init\<close> and
  every push and pop keeps them there), a push stores its byte exactly when fewer than 63
  bytes are pending; a stored byte raises the count of pending bytes by one and a pop
  lowers it by one (or leaves it at 0); after any sequence of pushes and pops, each run to
  completion, the indices are still below 64 and the count is below 64.
\<close>

theorem ring_capacity:
  assumes "ring_inv st"
  shows "(cli_push c st \<noteq> st \<longleftrightarrow> cli_pending st < 63)
         \<and> cli_pending (cli_push c st) = (if cli_pending st < 63 then cli_pending st + 1 else cli_pending st)
         \<and> cli_pending (snd (snd (cli_pop st))) = cli_pending st - 1
         \<and> ring_inv (ring_run xs st) \<and> cli_pending (ring_run xs st) < 64"
proof -
  have "cli_push c st \<noteq> st \<longleftrightarrow> ring_next (s_cliHead st) \<noteq> s_cliTail st"
  proof
    assume "cli_push c st \<noteq> st"
    then show "ring_next (s_cliHead st) \<noteq> s_cliTail st" by (auto simp: cli_push_def)
  next
    assume a: "ring_next (s_cliHead st) \<noteq> s_cliTail st"
    then have "s_cliHead (cli_push c st) = ring_next (s_cliHead st)" by (simp add: cli_push_def)
    then show "cli_push c st \<noteq> st" using ring_next_neq [of "s_cliHead st"] by auto
  qed
  also have "\<dots> \<longleftrightarrow> cli_pending st < 63"
    using ring_full_iff [OF assms] cli_pending_le [of st] by auto
  finally have 1: "cli_push c st \<noteq> st \<longleftrightarrow> cli_pending st < 63" .
  have "cli_pending (ring_run xs st) < 64" using cli_pending_le [of "ring_run xs st"] by simp
  with 1 show ?thesis
    using cli_pending_push [OF assms] cli_pending_pop [OF assms] ring_inv_run [OF assms] by simp
qed

theorem ring_capacity_witness:
  "ring_inv ecu_ring_full \<and> cli_pending ecu_ring_full = 63
   \<and> cli_push (CHR ''x'') ecu_ring_full = ecu_ring_full
   \<and> cli_pending (ring_run [Push (CHR ''x''), Pop, Push (CHR ''y'')] ecu_ring_full) < 64"
proof -
  have a: "ring_inv ecu_ring_full"
    by (simp add: ring_inv_def ecu_ring_full_def ecu_boot_def)
  have b: "cli_pending ecu_ring_full = 63"
    by (simp add: cli_pending_def ecu_ring_full_def ecu_boot_def)
  show ?thesis
    using a b ring_capacity [OF a, of "CHR ''x''" "[Push (CHR ''x''), Pop, Push (CHR ''y'')]"]
    by (simp del: ring_run.simps)
qed

text \<open>
  Claim C6.  A push into a full buffer (the index after the head equals the tail) leaves
  the whole state as it was: contents and both indices.  A pop with head equal to tail
  returns 0, stores no byte, and leaves the state as it was.
\<close>

theorem ring_drop_on_full_and_empty:
  "(ring_next (s_cliHead st) = s_cliTail st \<longrightarrow> cli_push c st = st)
   \<and> (s_cliHead st = s_cliTail st \<longrightarrow> cli_pop st = (0, None, st))"
  by (simp add: cli_push_def cli_pop_def)

theorem ring_drop_witness:
  "ring_next (s_cliHead ecu_ring_full) = s_cliTail ecu_ring_full
   \<and> cli_push (CHR ''x'') ecu_ring_full = ecu_ring_full
   \<and> s_cliHead ecu_boot = s_cliTail ecu_boot
   \<and> cli_pop ecu_boot = (0, None, ecu_boot)"
proof -
  have a: "ring_next (s_cliHead ecu_ring_full) = s_cliTail ecu_ring_full"
    by (simp add: ecu_ring_full_def ecu_boot_def ring_next_def CLI_RX_BUF_SIZE_def)
  have b: "s_cliHead ecu_boot = s_cliTail ecu_boot"
    by (simp add: ecu_boot_def)
  show ?thesis
    using a b ring_drop_on_full_and_empty [of ecu_ring_full "CHR ''x''"]
      ring_drop_on_full_and_empty [of ecu_boot]
    by simp
qed

section \<open>The logging sink\<close>

lemma log_line_length: "0 < length (log_line level tag m)"
  by (simp add: log_line_def Let_def)

lemma log_line_not_Nil: "log_line level tag m \<noteq> []"
  using log_line_length [of level tag m] by simp

lemma Log_Write_emit_changes:
  assumes "level_num level \<le> level_num (s_logLevel st)" "s_logUart st = Ptr u" "formatted = Some msg"
  shows "Log_Write level tag formatted st \<noteq> st"
proof -
  have "uart_tx (Log_Write level tag formatted st) \<noteq> uart_tx st"
    using assms
    by (simp add: Log_Write_def Let_def HAL_UART_Transmit_def not_less log_line_not_Nil)
  then show ?thesis by auto
qed

lemma Log_Write_emit_short:
  assumes "level_num level \<le> level_num (s_logLevel st)" "s_logUart st = Ptr u" "formatted = Some msg"
    and "length (log_line level tag (take 127 msg)) < 160"
  shows "Log_Write level tag formatted st
         = st\<lparr>uart_tx := uart_tx st @ [(u, log_line level tag (take 127 msg))]\<rparr>"
  using assms
  by (simp add: Log_Write_def Let_def HAL_UART_Transmit_def not_less log_line_not_Nil)

text \<open>
  Claim C5 says that \<^verbatim>\<open>Log_Write\<close> drops a record exactly when its level is numerically
  below the configured one.  The guard is the other way round, and it is not the only
  one: the call leaves the state as it was exactly when the level is numerically above
  the configured level (less severe), or no UART is bound, or formatting failed.
  Otherwise, when the formatted line (the message cut to 127 characters, between the
  prefix and CR LF) is shorter than 160 characters, it makes exactly one transmit call,
  on the logging UART, with exactly that line, and changes nothing else.
\<close>

theorem Log_Write_drops_or_emits:
  "(Log_Write level tag formatted st = st \<longleftrightarrow>
      level_num (s_logLevel st) < level_num level \<or> s_logUart st = NULL \<or> formatted = None)
   \<and> (\<forall>u msg. level_num level \<le> level_num (s_logLevel st) \<longrightarrow> s_logUart st = Ptr u
         \<longrightarrow> formatted = Some msg
         \<longrightarrow> length (log_line level tag (take 127 msg)) < 160
         \<longrightarrow> Log_Write level tag formatted st
             = st\<lparr>uart_tx := uart_tx st @ [(u, log_line level tag (take 127 msg))]\<rparr>)"
proof (intro conjI allI impI)
  show "Log_Write level tag formatted st = st \<longleftrightarrow>
      level_num (s_logLevel st) < level_num level \<or> s_logUart st = NULL \<or> formatted = None"
  proof (cases "level_num (s_logLevel st) < level_num level \<or> s_logUart st = NULL \<or> formatted = None")
    case True
    then show ?thesis by (auto simp: Log_Write_def split: ptr.splits)
  next
    case False
    then obtain u msg where "level_num level \<le> level_num (s_logLevel st)" "s_logUart st = Ptr u"
      "formatted = Some msg"
      by (cases "s_logUart st"; cases formatted) auto
    then have "Log_Write level tag formatted st \<noteq> st"
      by (rule Log_Write_emit_changes)
    then show ?thesis using False by blast
  qed
next
  fix u msg
  assume "level_num level \<le> level_num (s_logLevel st)" "s_logUart st = Ptr u" "formatted = Some msg"
    "length (log_line level tag (take 127 msg)) < 160"
  then show "Log_Write level tag formatted st
             = st\<lparr>uart_tx := uart_tx st @ [(u, log_line level tag (take 127 msg))]\<rparr>"
    by (rule Log_Write_emit_short)
qed

theorem Log_Write_witness:
  "level_num LOG_LEVEL_WARN \<le> level_num (s_logLevel ecu_boot) \<and> s_logUart ecu_boot = Ptr 2
   \<and> length (log_line LOG_LEVEL_WARN (Some ''CLI'') (take 127 ''hot'')) < 160
   \<and> Log_Write LOG_LEVEL_WARN (Some ''CLI'') (Some ''hot'') ecu_boot
     = ecu_boot\<lparr>uart_tx := [(2, ''[W][CLI] hot'' @ [CR, LF])]\<rparr>
   \<and> Log_Write LOG_LEVEL_DEBUG (Some ''CLI'') (Some ''hot'') ecu_boot = ecu_boot"
proof -
  have a: "level_num LOG_LEVEL_WARN \<le> level_num (s_logLevel ecu_boot)" by (simp add: ecu_boot_def)
  have b: "s_logUart ecu_boot = Ptr 2" by (simp add: ecu_boot_def)
  have c: "level_num (s_logLevel ecu_boot) < level_num LOG_LEVEL_DEBUG" by (simp add: ecu_boot_def)
  have d: "uart_tx ecu_boot = []" by (simp add: ecu_boot_def)
  have e: "log_line LOG_LEVEL_WARN (Some ''CLI'') (take 127 ''hot'') = ''[W][CLI] hot'' @ [CR, LF]"
    by (simp add: log_line_def cstr_def)
  have f: "length (log_line LOG_LEVEL_WARN (Some ''CLI'') (take 127 ''hot'')) < 160"
    by (simp add: log_line_def cstr_def)
  show ?thesis
    using a b c d e f
      Log_Write_drops_or_emits [of LOG_LEVEL_WARN "Some ''CLI''" "Some ''hot''" ecu_boot]
      Log_Write_drops_or_emits [of LOG_LEVEL_DEBUG "Some ''CLI''" "Some ''hot''" ecu_boot]
    by simp
qed

text \<open>
  With the default level, a record of level \<open>LOG_LEVEL_ERROR\<close> is numerically below the
  configured level and is written.
\<close>

theorem Log_Write_direction:
  "level_num LOG_LEVEL_ERROR < level_num (s_logLevel ecu_boot)
   \<and> uart_tx (Log_Write LOG_LEVEL_ERROR (Some ''CLI'') (Some ''fault'') ecu_boot)
     = [(2, ''[E][CLI] fault'' @ [CR, LF])]"
  by (simp add: Log_Write_def ecu_boot_def log_line_def cstr_def HAL_UART_Transmit_def)

section \<open>The command line\<close>

text \<open>
  Claim C7 says that a byte arriving when the accumulator is full is discarded but still
  echoed.  The echo is inside the branch that appends, so such a byte is neither appended
  nor echoed: with 31 characters accumulated, \<^verbatim>\<open>cli_handle_char\<close> on a byte that is not a
  line terminator leaves the whole state as it was, the transmitted bytes and the ring
  buffer included.
\<close>

theorem line_full_discards:
  assumes "c \<noteq> CR" "c \<noteq> LF" "31 \<le> unat (idx st)"
  shows "cli_handle_char P c st = st"
  using assms by (simp add: cli_handle_char_def)

theorem line_full_discards_witness:
  "CHR ''x'' \<noteq> CR \<and> CHR ''x'' \<noteq> LF \<and> 31 \<le> unat (idx ecu_line_full)
   \<and> cli_handle_char exact_platform (CHR ''x'') ecu_line_full = ecu_line_full"
proof -
  have a: "CHR ''x'' \<noteq> CR" and b: "CHR ''x'' \<noteq> LF" by simp_all
  have c: "31 \<le> unat (idx ecu_line_full)" by (simp add: ecu_line_full_def)
  show ?thesis using a b c line_full_discards [OF a b c, of exact_platform] by simp
qed

text \<open>With the CLI bound to a UART and 31 characters accumulated, nothing is transmitted
  for a further character.\<close>

theorem line_full_no_echo:
  "s_cliUart ecu_line_full = Ptr 2 \<and> unat (idx ecu_line_full) = 31
   \<and> uart_tx (cli_handle_char exact_platform (CHR ''x'') ecu_line_full) = []"
  by (simp add: cli_handle_char_def ecu_line_full_def ecu_boot_def)

lemma cli_feed_append: "cli_feed P (xs @ ys) st = cli_feed P ys (cli_feed P xs st)"
  by (induction xs arbitrary: st) simp_all

lemma Log_Write_frame:
  "vehicles (Log_Write level tag formatted st) = vehicles st"
  "s_vehicle (Log_Write level tag formatted st) = s_vehicle st"
  "s_cliUart (Log_Write level tag formatted st) = s_cliUart st"
  by (simp_all add: Log_Write_def Let_def HAL_UART_Transmit_def split: ptr.splits option.splits)

lemma cli_uart_print_frame:
  "vehicles (cli_uart_print s st) = vehicles st"
  "s_vehicle (cli_uart_print s st) = s_vehicle st"
  by (simp_all add: cli_uart_print_def Let_def HAL_UART_Transmit_def split: ptr.splits option.splits)

lemma handle_normal_char:
  assumes "c \<noteq> CR" "c \<noteq> LF" "unat (idx st) < 31"
  shows "line (cli_handle_char P c st) = (line st)[unat (idx st) := c]"
    and "idx (cli_handle_char P c st) = idx st + 1"
    and "vehicles (cli_handle_char P c st) = vehicles st"
    and "s_vehicle (cli_handle_char P c st) = s_vehicle st"
  using assms
  by (simp_all add: cli_handle_char_def Let_def HAL_UART_Transmit_def split: ptr.splits)

lemma update_after_prefix:
  assumes "length cs < length l"
  shows "(cs @ drop (length cs) l)[length cs := c] = (cs @ [c]) @ drop (Suc (length cs)) l"
proof -
  have "drop (length cs) l = l ! length cs # drop (Suc (length cs)) l"
    using assms by (simp add: Cons_nth_drop_Suc)
  then show ?thesis by (simp add: list_update_append)
qed

lemma accumulate_chars:
  assumes "length (line st) = 32" "idx st = 0"
  shows "\<forall>c \<in> set cs. c \<noteq> CR \<and> c \<noteq> LF \<Longrightarrow> length cs \<le> 31 \<Longrightarrow>
         line (cli_feed P cs st) = cs @ drop (length cs) (line st)
         \<and> idx (cli_feed P cs st) = of_nat (length cs)
         \<and> vehicles (cli_feed P cs st) = vehicles st
         \<and> s_vehicle (cli_feed P cs st) = s_vehicle st"
proof (induction cs rule: rev_induct)
  case Nil
  then show ?case using assms by simp
next
  case (snoc c cs)
  let ?st = "cli_feed P cs st"
  have len: "length cs < 31" using snoc.prems by simp
  have ih: "line ?st = cs @ drop (length cs) (line st)" "idx ?st = of_nat (length cs)"
    "vehicles ?st = vehicles st" "s_vehicle ?st = s_vehicle st"
    using snoc by simp_all
  have u: "unat (idx ?st) = length cs"
    using len by (simp add: ih(2) unat_of_nat)
  have c: "c \<noteq> CR" "c \<noteq> LF" using snoc.prems by simp_all
  have lt: "unat (idx ?st) < 31" using len u by simp
  have l: "length cs < length (line st)" using len assms by simp
  show ?case
    unfolding cli_feed_append
    using handle_normal_char [OF c lt, of P] ih u update_after_prefix [OF l, of c]
    by simp
qed

lemma cstr_terminated: "NUL \<notin> set cs \<Longrightarrow> cstr (cs @ NUL # xs) = cs"
  unfolding cstr_def by (induction cs) auto

lemma Vehicle_Force_overheat:
  assumes "vehicle_inv (h a)"
  shows "Vehicle_Force P (Ptr a) (speed_kph (h a)) (engine_rpm (h a)) (Fin 115) h
         = h(a := (h a)\<lparr>coolant_temp_c := Fin 110\<rparr>)"
proof -
  have s: "clamp_f (speed_kph (h a)) (Fin 0) (Fin 200) = speed_kph (h a)"
    using assms by (simp add: vehicle_inv_def clamp_f_id)
  have r: "float_to_u16 P (clamp_f (u16_to_float (engine_rpm (h a))) (Fin 600) (Fin 6000)) = engine_rpm (h a)"
    using assms by (simp add: vehicle_inv_def rpm_clamp_id)
  have t: "clamp_f (Fin 115) (Fin 20) (Fin 110) = Fin 110"
    by (simp add: clamp_f_def fgt_def)
  have e: "\<lparr>speed_kph = speed_kph x, engine_rpm = engine_rpm x, coolant_temp_c = Fin 110\<rparr>
           = x\<lparr>coolant_temp_c := Fin 110\<rparr>" for x :: VehicleState_t
    by (cases x) simp
  show ?thesis
    unfolding Vehicle_Force_def by (simp add: s r t e)
qed

lemma dispatch_cool_hot:
  assumes "line st = ''veh cool-hot'' @ rest" "rest \<noteq> []" "idx st = 12" "s_vehicle st = Ptr a"
    "vehicle_inv (vehicles st a)" "t = CR \<or> t = LF"
  shows "vehicles (cli_handle_char P t st) = (vehicles st)(a := (vehicles st a)\<lparr>coolant_temp_c := Fin 110\<rparr>)"
proof -
  obtain r rs where rest: "rest = r # rs" using assms(2) by (cases rest) auto
  have l: "(line st)[unat (idx st) := NUL] = ''veh cool-hot'' @ NUL # rs"
    by (simp add: assms(1,3) rest)
  have c: "cstr ((line st)[unat (idx st) := NUL]) = ''veh cool-hot''"
    unfolding l by (rule cstr_terminated) simp
  have i: "idx st \<noteq> 0" by (simp add: assms(3))
  have f: "Vehicle_Force P (Ptr a) (speed_kph (vehicles st a)) (engine_rpm (vehicles st a)) (Fin 115)
             (vehicles st)
           = (vehicles st)(a := (vehicles st a)\<lparr>coolant_temp_c := Fin 110\<rparr>)"
    using assms(5) by (rule Vehicle_Force_overheat [where h = "vehicles st" and a = a])
  show ?thesis
    using assms(6) i
    by (auto simp add: cli_handle_char_def Let_def c Log_Write_frame cli_uart_print_frame assms(4) f)
qed

lemma cool_hot_feed:
  assumes "length (line st) = 32" "idx st = 0" "s_vehicle st = Ptr a"
    "vehicle_inv (vehicles st a)" "t = CR \<or> t = LF"
  shows "vehicles (cli_feed P (''veh cool-hot'' @ [t]) st) a
         = (vehicles st a)\<lparr>coolant_temp_c := Fin 110\<rparr>"
proof -
  let ?st = "cli_feed P ''veh cool-hot'' st"
  have acc: "line ?st = ''veh cool-hot'' @ drop (length ''veh cool-hot'') (line st)
       \<and> idx ?st = of_nat (length ''veh cool-hot'')
       \<and> vehicles ?st = vehicles st \<and> s_vehicle ?st = s_vehicle st"
    by (rule accumulate_chars [OF assms(1,2)]) simp_all
  have rest: "drop (length ''veh cool-hot'') (line st) \<noteq> []" using assms(1) by simp
  have i: "idx ?st = 12" using acc by simp
  have v: "vehicle_inv (vehicles ?st a)" using acc assms(4) by simp
  have p: "s_vehicle ?st = Ptr a" using acc assms(3) by simp
  have "vehicles (cli_handle_char P t ?st) = (vehicles ?st)(a := (vehicles ?st a)\<lparr>coolant_temp_c := Fin 110\<rparr>)"
    using acc rest i p v assms(5) by (intro dispatch_cool_hot [where rest = "drop (length ''veh cool-hot'') (line st)"]) simp_all
  then show ?thesis
    unfolding cli_feed_append using acc by simp
qed

lemma ecu_boot_ready:
  "length (line ecu_boot) = 32" "idx ecu_boot = 0" "s_vehicle ecu_boot = Ptr 0"
  "vehicle_inv (vehicles ecu_boot 0)"
  by (simp_all add: ecu_boot_def vehicle_inv_def idle_store_def idle_state_def fle_def)

text \<open>
  Claim C2 says that the line \<^verbatim>\<open>veh cool-hot\<close> leaves a temperature of 115.
  \<^verbatim>\<open>Vehicle_Force\<close> clamps the temperature to \<open>[20, 110]\<close>: from an empty accumulator,
  with a vehicle bound whose fields are within their ranges, the line terminated by CR or
  LF leaves the temperature at 110 and the speed and the rotational speed as they were.
\<close>

theorem cool_hot_clamped:
  assumes "length (line st) = 32" "idx st = 0" "s_vehicle st = Ptr a"
    "vehicle_inv (vehicles st a)" "t = CR \<or> t = LF"
  shows "vehicles (cli_feed P (''veh cool-hot'' @ [t]) st) a
         = (vehicles st a)\<lparr>coolant_temp_c := Fin 110\<rparr>"
  using assms by (rule cool_hot_feed)

theorem cool_hot_clamped_witness:
  "length (line ecu_boot) = 32 \<and> idx ecu_boot = 0 \<and> s_vehicle ecu_boot = Ptr 0
   \<and> vehicle_inv (vehicles ecu_boot 0)
   \<and> vehicles (cli_feed exact_platform (''veh cool-hot'' @ [LF]) ecu_boot) 0
       = \<lparr>speed_kph = Fin 0, engine_rpm = 800, coolant_temp_c = Fin 110\<rparr>"
proof -
  have t: "LF = CR \<or> LF = LF" by simp
  have "vehicles ecu_boot 0 = \<lparr>speed_kph = Fin 0, engine_rpm = 800, coolant_temp_c = Fin 30\<rparr>"
    by (simp add: ecu_boot_def idle_store_def idle_state_def)
  then show ?thesis
    using ecu_boot_ready t
      cool_hot_clamped [OF ecu_boot_ready t, of exact_platform]
    by simp
qed

text \<open>From the start-up state the temperature after the command is not 115.\<close>

theorem cool_hot_not_115:
  "vehicle_inv (vehicles ecu_boot 0)
   \<and> coolant_temp_c (vehicles (cli_feed exact_platform (''veh cool-hot'' @ [CR]) ecu_boot) 0) \<noteq> Fin 115"
proof -
  have "vehicles (cli_feed exact_platform (''veh cool-hot'' @ [CR]) ecu_boot) 0
        = (vehicles ecu_boot 0)\<lparr>coolant_temp_c := Fin 110\<rparr>"
    by (rule cool_hot_feed [OF ecu_boot_ready]) simp
  then show ?thesis using ecu_boot_ready(4) by simp
qed

section \<open>The telemetry payload of a known state\<close>

text \<open>
  Claim C3 gives \<open>[0xFA, 0x00, 0xD0, 0x07, 0x32, 0x03]\<close> as the payload of speed 25,
  rotational speed 2000 and temperature 85.  The temperature field is 850, which is
  \<open>0x0352\<close>: the payload is \<open>[0xFA, 0x00, 0xD0, 0x07, 0x52, 0x03]\<close>.
\<close>

theorem telemetry_known_state:
  "telemetry_payload \<lparr>speed_kph = Fin 25, engine_rpm = 2000, coolant_temp_c = Fin 85\<rparr>
   = Some [0xFA, 0x00, 0xD0, 0x07, 0x52, 0x03]"
  by (simp add: telemetry_payload_def le16_def)

text \<open>The fifth byte is not \<open>0x32\<close>.\<close>

theorem telemetry_known_state_not_0x32:
  "telemetry_payload \<lparr>speed_kph = Fin 25, engine_rpm = 2000, coolant_temp_c = Fin 85\<rparr>
   \<noteq> Some [0xFA, 0x00, 0xD0, 0x07, 0x32, 0x03]"
  by (simp add: telemetry_payload_def le16_def)

end
